theory Spec2Isabelle
  imports Complex_Main
begin

section \<open>Python values used by the two engines\<close>

text \<open>
  The two modules verified here are \<^verbatim>\<open>src/modules/compile.py\<close> (continuity buckets and
  the ratio matcher) and \<^verbatim>\<open>src/modules/adjust.py\<close> (the face-alignment pipeline).
  Python exceptions are values of \<open>py_error\<close>; a function that can raise returns
  \<open>py_error + 'a\<close> with \<open>Inl\<close> for the exception.
\<close>

datatype py_error = IndexError | ValueError | ZeroDivisionError

subsection \<open>Strings\<close>

text \<open>\<^verbatim>\<open>s.endswith(suffix)\<close>.\<close>

definition endswith :: "string \<Rightarrow> string \<Rightarrow> bool" where
  "endswith s suffix =
     (length suffix \<le> length s \<and> drop (length s - length suffix) s = suffix)"

text \<open>
  \<^verbatim>\<open>s.split(sep)\<close> for a separator of one character: the pieces between the
  occurrences of the separator, always at least one piece.
\<close>

fun split_chr :: "char \<Rightarrow> string \<Rightarrow> string list" where
  "split_chr sep [] = [[]]"
| "split_chr sep (c # cs) =
     (if c = sep then [] # split_chr sep cs
      else (case split_chr sep cs of
              [] \<Rightarrow> [[c]]
            | piece # pieces \<Rightarrow> (c # piece) # pieces))"

text \<open>\<^verbatim>\<open>s.strip(chars)\<close>: drops leading and trailing characters that occur in \<open>chars\<close>.\<close>

definition strip_chars :: "string \<Rightarrow> string \<Rightarrow> string" where
  "strip_chars chars s =
     rev (dropWhile (\<lambda>c. List.member chars c) (rev (dropWhile (\<lambda>c. List.member chars c) s)))"

text \<open>
  \<^verbatim>\<open>int(s)\<close> on a string: surrounding white space is dropped, one sign is allowed,
  and the rest must be a non-empty run of decimal digits, else \<open>ValueError\<close>. Both
  modules call it only on a piece of \<^verbatim>\<open>split("_")\<close>, so digit-group underscores cannot
  occur. Strings are ASCII here.
\<close>

definition is_space :: "char \<Rightarrow> bool" where
  "is_space c = (let n = (of_char c :: nat) in (9 \<le> n \<and> n \<le> 13) \<or> (28 \<le> n \<and> n \<le> 32))"

definition is_digit :: "char \<Rightarrow> bool" where
  "is_digit c = (let n = (of_char c :: nat) in 48 \<le> n \<and> n \<le> 57)"

definition digits_value :: "string \<Rightarrow> int" where
  "digits_value ds = foldl (\<lambda>acc c. 10 * acc + (int (of_char c) - 48)) 0 ds"

definition py_int :: "string \<Rightarrow> py_error + int" where
  "py_int s =
     (let t = rev (dropWhile is_space (rev (dropWhile is_space s)));
          negative = (case t of [] \<Rightarrow> False | c # _ \<Rightarrow> c = CHR ''-'');
          ds = (case t of [] \<Rightarrow> []
                | c # cs \<Rightarrow> if c = CHR ''-'' \<or> c = CHR ''+'' then cs else t)
      in if ds \<noteq> [] \<and> list_all is_digit ds
         then Inr (if negative then - digits_value ds else digits_value ds)
         else Inl ValueError)"

text \<open>\<^verbatim>\<open>str(n)\<close> for an integer.\<close>

fun str_nat :: "nat \<Rightarrow> string" where
  "str_nat n =
     (if n < 10 then [char_of (48 + n)]
      else str_nat (n div 10) @ [char_of (48 + n mod 10)])"

definition str_int :: "int \<Rightarrow> string" where
  "str_int i = (if i < 0 then CHR ''-'' # str_nat (nat (- i)) else str_nat (nat i))"

text \<open>
  \<^verbatim>\<open>os.path.join(a, b)\<close> on POSIX: an absolute \<open>b\<close> replaces \<open>a\<close>; otherwise the
  two are joined by one slash unless \<open>a\<close> is empty or already ends with one.
\<close>

definition path_join :: "string \<Rightarrow> string \<Rightarrow> string" where
  "path_join a b =
     (if b \<noteq> [] \<and> hd b = CHR ''/'' then b
      else if a = [] \<or> last a = CHR ''/'' then a @ b
      else a @ ''/'' @ b)"

text \<open>\<^verbatim>\<open>int(x / 2)\<close> for an integer \<open>x\<close>: true division, then truncation toward zero.\<close>

definition int_half :: "int \<Rightarrow> int" where
  "int_half x = (if 0 \<le> x then x div 2 else - ((- x) div 2))"

section \<open>\<^verbatim>\<open>compile.py\<close>: continuity buckets\<close>

text \<open>\<^verbatim>\<open>int(frame_name.split("_")[0])\<close>.\<close>

definition frame_number :: "string \<Rightarrow> py_error + int" where
  "frame_number frame_name =
     (case split_chr CHR ''_'' frame_name of
        [] \<Rightarrow> Inl IndexError
      | piece # _ \<Rightarrow> py_int piece)"

text \<open>
  \<^verbatim>\<open>sorted(source_frames, key=lambda frame_name: int(frame_name.split("_")[0]))\<close>: the
  key of every element is computed first (the first failure is raised), then the list
  is sorted stably by key.
\<close>

fun first_error :: "(py_error + 'a) list \<Rightarrow> py_error option" where
  "first_error [] = None"
| "first_error (Inl e # _) = Some e"
| "first_error (Inr _ # rs) = first_error rs"

definition frame_key :: "string \<Rightarrow> int" where
  "frame_key frame_name = (case frame_number frame_name of Inr k \<Rightarrow> k | Inl _ \<Rightarrow> 0)"

definition sorted_frames :: "string list \<Rightarrow> py_error + string list" where
  "sorted_frames source_frames =
     (case first_error (map frame_number source_frames) of
        Some e \<Rightarrow> Inl e
      | None \<Rightarrow> Inr (sort_key frame_key source_frames))"

text \<open>
  One iteration of the loop over \<^verbatim>\<open>source_frames[1:]\<close>. \<open>buckets\<close> is
  \<^verbatim>\<open>source_frame_buckets\<close>; reading \<^verbatim>\<open>source_frame_buckets[-1][-1]\<close> raises on an
  empty list. The first \<^verbatim>\<open>if\<close> (gap 2) stands alone and is followed by the
  \<^verbatim>\<open>if\<close>/\<^verbatim>\<open>elif\<close> pair (gap 3, gap above 3), as in the source.
\<close>

definition append_to_last :: "'a list list \<Rightarrow> 'a \<Rightarrow> 'a list list" where
  "append_to_last buckets x = butlast buckets @ [last buckets @ [x]]"

definition bucket_step :: "int \<Rightarrow> string list list \<Rightarrow> string \<Rightarrow> py_error + string list list" where
  "bucket_step fps buckets frame_name =
     (case frame_number frame_name of
        Inl e \<Rightarrow> Inl e
      | Inr number \<Rightarrow>
          if buckets = [] then Inl IndexError
          else if last buckets = [] then Inl IndexError
          else
            (case frame_number (last (last buckets)) of
               Inl e \<Rightarrow> Inl e
             | Inr previous_frame_number \<Rightarrow>
                 let b1 = (if number = previous_frame_number + 2
                           then append_to_last buckets (last (last buckets))
                           else buckets);
                     b2 = (if number = previous_frame_number + 3
                           then (let once = append_to_last b1 (last (last b1))
                                 in append_to_last once (last (last once)))
                           else if number > previous_frame_number + 3
                           then (if int (length (last b1)) < int_half fps
                                 then butlast b1 @ [[]]
                                 else b1 @ [[]])
                           else b1)
                 in Inr (append_to_last b2 frame_name)))"

fun bucket_loop :: "int \<Rightarrow> string list list \<Rightarrow> string list \<Rightarrow> py_error + string list list" where
  "bucket_loop fps buckets [] = Inr buckets"
| "bucket_loop fps buckets (frame_name # rest) =
     (case bucket_step fps buckets frame_name of
        Inl e \<Rightarrow> Inl e
      | Inr buckets' \<Rightarrow> bucket_loop fps buckets' rest)"

text \<open>
  \<open>get_source_frame_buckets\<close>; \<open>listing\<close> is what \<^verbatim>\<open>os.listdir\<close> returns for the
  source's \<^verbatim>\<open>adjustments\<close> directory. \<^verbatim>\<open>source_frames[0]\<close> raises on an empty list.
\<close>

definition get_source_frame_buckets :: "string list \<Rightarrow> int \<Rightarrow> py_error + string list list" where
  "get_source_frame_buckets listing fps =
     (case sorted_frames (filter (\<lambda>item. endswith item ''jpg'') listing) of
        Inl e \<Rightarrow> Inl e
      | Inr source_frames \<Rightarrow>
          (case source_frames of
             [] \<Rightarrow> Inl IndexError
           | first_frame # rest \<Rightarrow> bucket_loop fps [[first_frame]] rest))"

section \<open>\<^verbatim>\<open>compile.py\<close>: the ratio matcher\<close>

text \<open>
  The ratio index \<^verbatim>\<open>frame_dict\<close>: a dictionary from a mouth-open ratio to the list
  of file paths with that ratio.
\<close>

type_synonym frame_dict = "int \<Rightarrow> string list option"

text \<open>\<^verbatim>\<open>int(frame.split("_")[1].strip(".jpg"))\<close>.\<close>

definition name_ratio :: "string \<Rightarrow> py_error + int" where
  "name_ratio frame =
     (case split_chr CHR ''_'' frame of
        _ # piece # _ \<Rightarrow> py_int (strip_chars ''.jpg'' piece)
      | _ \<Rightarrow> Inl IndexError)"

text \<open>\<^verbatim>\<open>path.split("/")[-1]\<close>; the list of pieces is never empty.\<close>

definition file_name_of :: "string \<Rightarrow> string" where
  "file_name_of path = last (split_chr CHR ''/'' path)"

text \<open>
  The body of the \<^verbatim>\<open>while\<close> loop of \<open>get_random_matching_frame\<close> up to the update of
  \<^verbatim>\<open>current_error\<close>. The state is \<^verbatim>\<open>matching_frame\<close> together with the number of
  calls of \<^verbatim>\<open>random.randint\<close> made so far. The random source is \<open>draws\<close>: the
  \<open>k\<close>-th call \<^verbatim>\<open>random.randint(0, n - 1)\<close> returns \<open>draws k mod n\<close>, so every value
  the call can return is covered by some \<open>draws\<close>. A ratio absent from the
  dictionary yields the default \<^verbatim>\<open>[matching_frame]\<close> of \<^verbatim>\<open>frame_dict.get\<close>.
\<close>

definition probe ::
  "string \<Rightarrow> frame_dict \<Rightarrow> (nat \<Rightarrow> nat) \<Rightarrow> int \<Rightarrow> int \<Rightarrow> string \<times> nat \<Rightarrow> string \<times> nat" where
  "probe frame frame_dict draws mouth_open_ratio current_error st =
     (let matching_frame = fst st; k = snd st;
          current_ratio = mouth_open_ratio + current_error
      in if \<not> (current_ratio < 1 \<or> current_ratio > 100) then
           (let matching_options =
                  (case frame_dict current_ratio of
                     None \<Rightarrow> [matching_frame]
                   | Some options \<Rightarrow> options);
                num_of_options = length matching_options
            in if matching_options \<noteq> [] \<and> \<not> (current_error = 0 \<and> num_of_options = 1) then
                 (let random_choice_index = draws k mod num_of_options;
                      possible_match = matching_options ! random_choice_index;
                      possible_match_name = file_name_of possible_match
                  in if possible_match_name \<noteq> frame
                     then (matching_options ! random_choice_index, Suc k)
                     else (matching_frame, Suc k))
               else (matching_frame, k))
         else (matching_frame, k))"

text \<open>
  The update of \<^verbatim>\<open>current_error\<close> at the end of the loop body:
  \<^verbatim>\<open>if current_error < 1: current_error -= 1\<close>, then \<^verbatim>\<open>current_error *= -1\<close>.
\<close>

definition next_error :: "int \<Rightarrow> int" where
  "next_error current_error =
     (if current_error < 1 then current_error - 1 else current_error) * (- 1)"

text \<open>\<^verbatim>\<open>while current_error < 20: ...\<close>\<close>

function match_loop ::
  "string \<Rightarrow> frame_dict \<Rightarrow> (nat \<Rightarrow> nat) \<Rightarrow> int \<Rightarrow> int \<Rightarrow> string \<times> nat \<Rightarrow> string \<times> nat" where
  "match_loop frame frame_dict draws mouth_open_ratio current_error st =
     (if current_error < 20
      then match_loop frame frame_dict draws mouth_open_ratio (next_error current_error)
             (probe frame frame_dict draws mouth_open_ratio current_error st)
      else st)"
  by pat_completeness auto
termination
  by (relation "measure (\<lambda>(frame, frame_dict, draws, mouth_open_ratio, e, st).
        nat (if 20 \<le> e then 0 else if 1 \<le> e then 2 * (20 - e)
             else if e \<le> - 19 then 1 else 2 * (19 + e) + 1))")
     (auto simp: next_error_def)

definition get_random_matching_frame ::
  "string \<Rightarrow> string \<Rightarrow> frame_dict \<Rightarrow> (nat \<Rightarrow> nat) \<Rightarrow> py_error + string" where
  "get_random_matching_frame frame frame_path frame_dict draws =
     (case name_ratio frame of
        Inl e \<Rightarrow> Inl e
      | Inr mouth_open_ratio \<Rightarrow>
          Inr (fst (match_loop frame frame_dict draws mouth_open_ratio 0 (frame_path, 0))))"

text \<open>
  The call in \<open>compile_video\<close>: the path handed to the matcher is the frame's name
  joined to the bucket's working directory
  \<^verbatim>\<open>os.path.join(buckets_directory, str(bucket_number))\<close>, and the index entry of an
  adjusted frame (\<open>get_frame_dict\<close>) is its name joined to the source's
  \<^verbatim>\<open>adjustments\<close> directory.
\<close>

definition bucket_frame_path :: "string \<Rightarrow> int \<Rightarrow> string \<Rightarrow> string" where
  "bucket_frame_path source_video_directory bucket_number frame =
     path_join (path_join (path_join source_video_directory ''buckets'') (str_int bucket_number))
       frame"

definition adjusted_frame_path :: "string \<Rightarrow> string \<Rightarrow> string" where
  "adjusted_frame_path source_video_directory item =
     path_join (path_join source_video_directory ''adjustments'') item"

text \<open>
  The values \<^verbatim>\<open>current_error\<close> takes at the head of the loop, starting from \<open>e\<close>: the
  control skeleton of the loop alone.
\<close>

function error_sequence :: "int \<Rightarrow> int list" where
  "error_sequence e = (if e < 20 then e # error_sequence (next_error e) else [])"
  by pat_completeness auto
termination
  by (relation "measure (\<lambda>e.
        nat (if 20 \<le> e then 0 else if 1 \<le> e then 2 * (20 - e)
             else if e \<le> - 19 then 1 else 2 * (19 + e) + 1))")
     (auto simp: next_error_def)

text \<open>The offsets as the specification lists them: 0, +1, -1, ..., +19, -19.\<close>

definition probe_offsets :: "int list" where
  "probe_offsets =
     [0, 1, - 1, 2, - 2, 3, - 3, 4, - 4, 5, - 5, 6, - 6, 7, - 7, 8, - 8, 9, - 9, 10, - 10,
      11, - 11, 12, - 12, 13, - 13, 14, - 14, 15, - 15, 16, - 16, 17, - 17, 18, - 18, 19, - 19]"

text \<open>
  The draws that succeed along a list of offsets, in order: at each offset, with the
  state the loop has there, the candidate ratio is in range, the options are not
  empty, it is not the degenerate case (offset 0 with one option), and the name of
  the drawn option differs from the target's. The state moves on by \<open>probe\<close>.
\<close>

definition drawn_candidate ::
  "frame_dict \<Rightarrow> (nat \<Rightarrow> nat) \<Rightarrow> int \<Rightarrow> int \<Rightarrow> string \<times> nat \<Rightarrow> string" where
  "drawn_candidate frame_dict draws mouth_open_ratio offset st =
     (let options = (case frame_dict (mouth_open_ratio + offset) of
                       None \<Rightarrow> [fst st] | Some options \<Rightarrow> options)
      in options ! (draws (snd st) mod length options))"

definition draw_succeeds ::
  "string \<Rightarrow> frame_dict \<Rightarrow> (nat \<Rightarrow> nat) \<Rightarrow> int \<Rightarrow> int \<Rightarrow> string \<times> nat \<Rightarrow> bool" where
  "draw_succeeds frame frame_dict draws mouth_open_ratio offset st =
     (let options = (case frame_dict (mouth_open_ratio + offset) of
                       None \<Rightarrow> [fst st] | Some options \<Rightarrow> options)
      in 1 \<le> mouth_open_ratio + offset \<and> mouth_open_ratio + offset \<le> 100
         \<and> options \<noteq> [] \<and> \<not> (offset = 0 \<and> length options = 1)
         \<and> file_name_of (drawn_candidate frame_dict draws mouth_open_ratio offset st) \<noteq> frame)"


section \<open>\<^verbatim>\<open>adjust.py\<close>: the face-alignment pipeline\<close>

text \<open>
  Landmark points are pairs of integer pixel coordinates (\<^verbatim>\<open>X = 0\<close>, \<^verbatim>\<open>Y = 1\<close>). A
  face is the dictionary \<^verbatim>\<open>face_recognition.face_landmarks\<close> returns for it, with the
  four entries the module reads. The detection itself is an external library call:
  every function that makes it takes the call as an argument.
\<close>

type_synonym point = "int \<times> int"

record face =
  top_lip :: "point list"
  bottom_lip :: "point list"
  left_eyebrow :: "point list"
  right_eyebrow :: "point list"

text \<open>
  An image is recorded as the operations of the imaging library applied to an opened
  file: pixels are not modelled, sizes are. Floating-point numbers are idealised as
  reals.
\<close>

datatype image =
    Opened string int int
  | Cropped image int int int int
  | Rotated image real
  | Shifted image int int
  | Resized image int int
  | Grayscale image

fun image_size :: "image \<Rightarrow> int \<times> int" where
  "image_size (Opened path w h) = (w, h)"
| "image_size (Cropped img x0 y0 x1 y1) = (x1 - x0, y1 - y0)"
| "image_size (Rotated img angle) = image_size img"
| "image_size (Shifted img dx dy) = image_size img"
| "image_size (Resized img w h) = (w, h)"
| "image_size (Grayscale img) = image_size img"

text \<open>
  \<open>crop_image\<close>; the bounding box is \<^verbatim>\<open>(left, top, bottom, right)\<close>, the result
  \<open>None\<close> is the bare \<^verbatim>\<open>return\<close>, and the crop is
  \<^verbatim>\<open>adjusted_image.crop([left, top, right, bottom])\<close>.
\<close>

definition crop_image :: "image \<Rightarrow> int \<times> int \<times> int \<times> int \<Rightarrow> image option" where
  "crop_image adjusted_image bounding_box =
     (case bounding_box of (left, top_edge, bottom_edge, right) \<Rightarrow>
        let width = right - left; height = bottom_edge - top_edge
        in if width < 150 \<or> height < 150 then None
           else if width < height then
             (let diff = height - width
              in Some (Cropped adjusted_image (left - int_half diff) top_edge
                         (right + int_half diff) bottom_edge))
           else
             (let diff = width - height
              in Some (Cropped adjusted_image left (top_edge - int_half diff)
                         right (bottom_edge + int_half diff))))"

text \<open>\<^verbatim>\<open>math.hypot\<close> on integer differences, and \<^verbatim>\<open>int(x)\<close> on a float.\<close>

definition hypot :: "int \<Rightarrow> int \<Rightarrow> real" where
  "hypot dx dy = sqrt (real_of_int (dx * dx + dy * dy))"

definition py_trunc :: "real \<Rightarrow> int" where
  "py_trunc x = (if 0 \<le> x then \<lfloor>x\<rfloor> else \<lceil>x\<rceil>)"

text \<open>
  \<open>get_mouth_open_ratio\<close>. \<open>Inr None\<close> is the bare \<^verbatim>\<open>return\<close> when no landmarks are
  found; indexing an empty lip raises \<open>IndexError\<close>; the float division raises
  \<open>ZeroDivisionError\<close> when \<^verbatim>\<open>lip_width\<close> is zero.
\<close>

definition get_mouth_open_ratio :: "(image \<Rightarrow> face list) \<Rightarrow> image \<Rightarrow> py_error + int option" where
  "get_mouth_open_ratio face_landmarks adjusted_image =
     (case face_landmarks adjusted_image of
        [] \<Rightarrow> Inr None
      | face0 # _ \<Rightarrow>
          let bottom_sorted = sort_key fst (bottom_lip face0);
              top_sorted = sort_key fst (top_lip face0)
          in if bottom_sorted = [] then Inl IndexError
             else if top_sorted = [] then Inl IndexError
             else
               (let left_of_bottom_lip = hd bottom_sorted;
                    middle_of_bottom_lip =
                      bottom_sorted ! nat (int_half (int (length bottom_sorted)));
                    right_of_bottom_lip = last bottom_sorted;
                    left_of_top_lip = hd top_sorted;
                    middle_of_top_lip = top_sorted ! nat (int_half (int (length top_sorted)));
                    right_of_top_lip = last top_sorted;
                    bottom_lip_width =
                      hypot (fst right_of_bottom_lip - fst left_of_bottom_lip)
                            (snd right_of_bottom_lip - snd left_of_bottom_lip);
                    top_lip_width =
                      hypot (fst right_of_top_lip - fst left_of_top_lip)
                            (snd right_of_top_lip - snd left_of_top_lip);
                    lip_width = (bottom_lip_width + top_lip_width) / 2;
                    open_mouth_height =
                      hypot (fst middle_of_top_lip - fst middle_of_bottom_lip)
                            (snd middle_of_top_lip - snd middle_of_bottom_lip)
                in if lip_width = 0 then Inl ZeroDivisionError
                   else Inr (Some (min (max (py_trunc ((open_mouth_height / lip_width) * 100)) 1)
                                    100))))"

text \<open>
  \<open>rotate_image\<close>. \<^verbatim>\<open>left_eyebrow[-1]\<close> and \<^verbatim>\<open>right_eyebrow[1]\<close> raise \<open>IndexError\<close>
  on lists that are too short, \<^verbatim>\<open>math.sqrt(4 * a * b)\<close> is zero when \<open>a\<close> or \<open>b\<close> is
  and the division then raises, and \<^verbatim>\<open>math.acos\<close> raises \<open>ValueError\<close> outside
  \<open>[-1, 1]\<close>.
\<close>

definition rotate_image :: "(image \<Rightarrow> face list) \<Rightarrow> image \<Rightarrow> py_error + image option" where
  "rotate_image face_landmarks adjusted_image =
     (case face_landmarks adjusted_image of
        [] \<Rightarrow> Inr None
      | face0 # _ \<Rightarrow>
          let left_brow = sort_key fst (left_eyebrow face0);
              right_brow = sort_key fst (right_eyebrow face0)
          in if left_brow = [] then Inl IndexError
             else if length right_brow < 2 then Inl IndexError
             else
               (let outer_left_eyebrow = last left_brow;
                    outer_right_eyebrow = right_brow ! 1;
                    point_1 = (fst outer_left_eyebrow, snd outer_right_eyebrow);
                    point_2 = (fst outer_right_eyebrow, snd outer_right_eyebrow);
                    point_3 = (fst outer_left_eyebrow, snd outer_left_eyebrow);
                    a = (fst point_2 - fst point_1)\<^sup>2 + (snd point_2 - snd point_1)\<^sup>2;
                    b = (fst point_2 - fst point_3)\<^sup>2 + (snd point_2 - snd point_3)\<^sup>2;
                    c = (fst point_3 - fst point_1)\<^sup>2 + (snd point_3 - snd point_1)\<^sup>2
                in if 4 * a * b = 0 then Inl ZeroDivisionError
                   else
                     (let q = real_of_int (a + b - c) / sqrt (real_of_int (4 * a * b))
                      in if q < - 1 \<or> 1 < q then Inl ValueError
                         else Inr (Some (Rotated adjusted_image (- (arccos q * 180 / pi)))))))"

text \<open>
  \<open>center_image\<close>. \<^verbatim>\<open>min\<close> and \<^verbatim>\<open>max\<close> of an empty list raise \<open>ValueError\<close>; the
  translation is kept as the pair \<^verbatim>\<open>(horizontal_translation, vertical_translation)\<close>.
\<close>

definition list_min :: "int list \<Rightarrow> int" where
  "list_min xs = foldl min (hd xs) (tl xs)"

definition list_max :: "int list \<Rightarrow> int" where
  "list_max xs = foldl max (hd xs) (tl xs)"

definition center_image :: "(image \<Rightarrow> face list) \<Rightarrow> image \<Rightarrow> py_error + image option" where
  "center_image face_landmarks adjusted_image =
     (case face_landmarks adjusted_image of
        [] \<Rightarrow> Inr None
      | face0 # _ \<Rightarrow>
          let bottom_points = bottom_lip face0; top_points = top_lip face0
          in if top_points = [] \<or> bottom_points = [] then Inl ValueError
             else
               (let top_of_lip = list_min (map snd top_points);
                    bottom_of_lip = list_max (map snd bottom_points);
                    left_of_lip = min (list_min (map fst top_points))
                                      (list_min (map fst bottom_points));
                    right_of_lip = max (list_max (map fst top_points))
                                       (list_max (map fst bottom_points));
                    image_width = fst (image_size adjusted_image);
                    image_height = snd (image_size adjusted_image);
                    mouth_goal = (int_half image_width,
                                  py_trunc (real_of_int image_height * (2 / 3)));
                    mouth_center = (int_half (left_of_lip + right_of_lip),
                                    int_half (top_of_lip + bottom_of_lip));
                    horizontal_translation = fst mouth_goal - fst mouth_center;
                    vertical_translation = snd mouth_goal - snd mouth_center
                in Inr (Some (Shifted adjusted_image horizontal_translation
                                vertical_translation))))"

definition resize_image :: "image \<Rightarrow> image" where
  "resize_image adjusted_image = Resized adjusted_image 300 300"

definition grayscale_image :: "image \<Rightarrow> image" where
  "grayscale_image adjusted_image = Grayscale adjusted_image"

text \<open>The text an f-string puts for \<^verbatim>\<open>{mouth_open_ratio}\<close>.\<close>

definition format_ratio :: "int option \<Rightarrow> string" where
  "format_ratio mouth_open_ratio =
     (case mouth_open_ratio of None \<Rightarrow> ''None'' | Some n \<Rightarrow> str_int n)"

text \<open>
  \<open>adjust\<close>. \<open>opened\<close> is what \<^verbatim>\<open>Image.open(image_path)\<close> returns and \<open>store\<close> the
  files written so far. \<open>face_landmarks\<close> is the library's detection, a function of
  the image it is given: \<open>get_mouth_open_ratio\<close> and \<open>rotate_image\<close> both call it on
  the same cropped image, \<open>center_image\<close> on the rotated one. An early \<^verbatim>\<open>return\<close>
  leaves the store as it is. \<open>adjust\<close> itself does not test the result of
  \<open>get_mouth_open_ratio\<close>; the first test after it is the one on the result of
  \<open>rotate_image\<close>.
\<close>

definition adjust ::
  "(image \<Rightarrow> face list) \<Rightarrow> string \<Rightarrow> image \<Rightarrow> int \<times> int \<times> int \<times> int \<Rightarrow> string
     \<Rightarrow> (string \<Rightarrow> image option) \<Rightarrow> py_error + (string \<Rightarrow> image option)" where
  "adjust face_landmarks image_path opened bounding_box adjustments_path store =
     (let file_name = file_name_of image_path;
          save_path = path_join adjustments_path file_name
      in case crop_image opened bounding_box of
           None \<Rightarrow> Inr store
         | Some cropped \<Rightarrow>
             (case get_mouth_open_ratio face_landmarks cropped of
                Inl e \<Rightarrow> Inl e
              | Inr mouth_open_ratio \<Rightarrow>
                  (case rotate_image face_landmarks cropped of
                     Inl e \<Rightarrow> Inl e
                   | Inr None \<Rightarrow> Inr store
                   | Inr (Some rotated) \<Rightarrow>
                       (case center_image face_landmarks rotated of
                          Inl e \<Rightarrow> Inl e
                        | Inr None \<Rightarrow> Inr store
                        | Inr (Some centered) \<Rightarrow>
                            Inr (store
                              (strip_chars ''.jpg'' save_path @ ''_''
                                 @ format_ratio mouth_open_ratio @ ''.jpg''
                               \<mapsto> grayscale_image (resize_image centered)))))))"

text \<open>
  The ratio as the specification words it, for comparison with the source: the lips
  sorted by \<open>x\<close>, the Euclidean distance, the width as the mean of the two lips'
  first-to-last distances, the height as the distance between the two \<open>x\<close>-median
  points, and the clamp to 1..100 of either the rounded or the truncated quotient.
\<close>

definition euclid :: "point \<Rightarrow> point \<Rightarrow> real" where
  "euclid p q = sqrt ((real_of_int (fst p) - real_of_int (fst q))\<^sup>2
                     + (real_of_int (snd p) - real_of_int (snd q))\<^sup>2)"

definition x_median :: "point list \<Rightarrow> point" where
  "x_median ps = sort_key fst ps ! (length ps div 2)"

definition spec_lip_width :: "face \<Rightarrow> real" where
  "spec_lip_width f =
     (euclid (hd (sort_key fst (bottom_lip f))) (last (sort_key fst (bottom_lip f)))
      + euclid (hd (sort_key fst (top_lip f))) (last (sort_key fst (top_lip f)))) / 2"

definition spec_mouth_height :: "face \<Rightarrow> real" where
  "spec_mouth_height f = euclid (x_median (top_lip f)) (x_median (bottom_lip f))"

definition clamp_ratio :: "int \<Rightarrow> int" where
  "clamp_ratio n = min (max n 1) 100"

definition spec_ratio_rounded :: "face \<Rightarrow> int" where
  "spec_ratio_rounded f = clamp_ratio (round (spec_mouth_height f / spec_lip_width f * 100))"

definition spec_ratio_truncated :: "face \<Rightarrow> int" where
  "spec_ratio_truncated f =
     clamp_ratio (py_trunc (spec_mouth_height f / spec_lip_width f * 100))"

text \<open>
  The directory part \<^verbatim>\<open>os.path.join\<close> puts in front of a relative name: \<open>a\<close> itself
  when it is empty or ends with a slash, else \<open>a\<close> with a slash added.
\<close>

definition dir_prefix :: "string \<Rightarrow> string" where
  "dir_prefix a = (if a = [] \<or> last a = CHR ''/'' then a else a @ ''/'')"

text \<open>
  The recursive equations of the loops are unfolded by hand in the proofs below, never
  by the simplifier on its own.
\<close>

declare match_loop.simps [simp del]

declare error_sequence.simps [simp del]

declare str_nat.simps [simp del]

text \<open>
  The threshold as the specification words it, \<open>ceil(fps / 2)\<close>, kept apart from the
  source's \<^verbatim>\<open>int(fps / 2)\<close> (\<open>int_half\<close>) for comparison.
\<close>

definition ceil_half :: "int \<Rightarrow> int" where
  "ceil_half fps = \<lceil>real_of_int fps / 2\<rceil>"

section \<open>Properties of the bucketizer\<close>

lemmas parse_defs = frame_number_def py_int_def is_space_def is_digit_def digits_value_def

lemmas bucket_defs = get_source_frame_buckets_def sorted_frames_def frame_key_def
  bucket_step_def append_to_last_def int_half_def

lemma frame_number_example: "frame_number ''00012_50.jpg'' = Inr 12"
  by (simp add: parse_defs)

text \<open>
  Gap bridging, one step of the loop: with the tail \<open>t\<close> of the current bucket at
  frame number \<open>p\<close>, a frame at \<open>p + 1\<close> is appended, a frame at \<open>p + 2\<close> is appended
  after one copy of \<open>t\<close>, and a frame at \<open>p + 3\<close> after two copies of \<open>t\<close>.
\<close>

lemma bucket_step_gap1:
  assumes "frame_number t = Inr p" and "frame_number f = Inr (p + 1)"
  shows "bucket_step fps (bs @ [cur @ [t]]) f = Inr (bs @ [cur @ [t, f]])"
  using assms by (simp add: bucket_step_def append_to_last_def)

lemma bucket_step_gap2:
  assumes "frame_number t = Inr p" and "frame_number f = Inr (p + 2)"
  shows "bucket_step fps (bs @ [cur @ [t]]) f = Inr (bs @ [cur @ [t, t, f]])"
  using assms by (simp add: bucket_step_def append_to_last_def)

lemma bucket_step_gap3:
  assumes "frame_number t = Inr p" and "frame_number f = Inr (p + 3)"
  shows "bucket_step fps (bs @ [cur @ [t]]) f = Inr (bs @ [cur @ [t, t, t, f]])"
  using assms by (simp add: bucket_step_def append_to_last_def)



text \<open>
  Claim C10. When the directory listing holds no name ending in \<open>jpg\<close>, the list of
  source frames is empty and seeding the first bucket with \<^verbatim>\<open>source_frames[0]\<close>
  raises \<open>IndexError\<close>: the function returns no bucket list at all, whatever the fps.
\<close>

theorem bucketizer_empty_input_raises:
  assumes "filter (\<lambda>item. endswith item ''jpg'') listing = []"
  shows "get_source_frame_buckets listing fps = Inl IndexError"
  using assms by (simp add: get_source_frame_buckets_def sorted_frames_def)

theorem bucketizer_empty_input_raises_witness:
  "filter (\<lambda>item. endswith item ''jpg'') [''audio.mp3'', ''analysis.txt''] = []
   \<and> get_source_frame_buckets [''audio.mp3'', ''analysis.txt''] 12 = Inl IndexError
   \<and> get_source_frame_buckets [] 12 = Inl IndexError"
  using bucketizer_empty_input_raises [of "[''audio.mp3'', ''analysis.txt'']" 12]
    bucketizer_empty_input_raises [of "[]" 12]
  by (simp add: endswith_def)

text \<open>
  What the loop guarantees for every fps and every listing: the result is never empty,
  its last (in-progress) bucket is never empty, and every bucket before the last has
  at least \<open>int(fps / 2)\<close> entries. The bound is the truncated half, not the rounded-up
  half.
\<close>

lemma append_to_last_butlast: "butlast (append_to_last bs x) = butlast bs"
  by (simp add: append_to_last_def)

lemma append_to_last_last: "last (append_to_last bs x) = last bs @ [x]"
  by (simp add: append_to_last_def)

lemma append_to_last_nonempty: "append_to_last bs x \<noteq> []"
  by (simp add: append_to_last_def)

lemma list_all_butlast_last:
  "bs \<noteq> [] \<Longrightarrow> list_all P bs = (list_all P (butlast bs) \<and> P (last bs))"
  by (induction bs) auto

lemma bucket_step_invariant:
  assumes "bucket_step fps bs f = Inr bs'"
    and "list_all (\<lambda>b. int_half fps \<le> int (length b)) (butlast bs)"
  shows "bs' \<noteq> [] \<and> last bs' \<noteq> []
       \<and> list_all (\<lambda>b. int_half fps \<le> int (length b)) (butlast bs')"
proof -
  let ?P = "\<lambda>b. int_half fps \<le> int (length b)"
  from assms(1) obtain n p where n: "frame_number f = Inr n"
    and ne: "bs \<noteq> []" "last bs \<noteq> []"
    and p: "frame_number (last (last bs)) = Inr p"
    by (auto simp: bucket_step_def split: sum.splits if_splits)
  define b1 where "b1 = (if n = p + 2 then append_to_last bs (last (last bs)) else bs)"
  define b2 where "b2 = (if n = p + 3
                           then (let once = append_to_last b1 (last (last b1))
                                 in append_to_last once (last (last once)))
                           else if n > p + 3
                           then (if int (length (last b1)) < int_half fps
                                 then butlast b1 @ [[]]
                                 else b1 @ [[]])
                           else b1)"
  have bs': "bs' = append_to_last b2 f"
    using assms(1) n ne p unfolding bucket_step_def b1_def b2_def Let_def
    by (simp split: if_splits)
  have b1: "b1 \<noteq> [] \<and> list_all ?P (butlast b1)"
    using ne assms(2) by (simp add: b1_def append_to_last_butlast append_to_last_nonempty)
  have "list_all ?P (butlast b2)"
  proof (cases "n = p + 3")
    case True
    then show ?thesis using b1 by (simp add: b2_def Let_def append_to_last_butlast)
  next
    case False
    show ?thesis
    proof (cases "n > p + 3")
      case gap: True
      show ?thesis
      proof (cases "int (length (last b1)) < int_half fps")
        case True
        then show ?thesis using b1 False gap by (simp add: b2_def)
      next
        case long: False
        have "list_all ?P b1"
          using list_all_butlast_last [of b1 ?P] b1 long by simp
        then show ?thesis using False gap long by (simp add: b2_def)
      qed
    next
      case no_gap: False
      then show ?thesis using b1 False by (simp add: b2_def)
    qed
  qed
  then show ?thesis
    by (simp add: bs' append_to_last_butlast append_to_last_last append_to_last_nonempty)
qed

lemma bucket_loop_invariant:
  assumes "bucket_loop fps bs fs = Inr bs'"
    and "bs \<noteq> []" and "last bs \<noteq> []"
    and "list_all (\<lambda>b. int_half fps \<le> int (length b)) (butlast bs)"
  shows "bs' \<noteq> [] \<and> last bs' \<noteq> []
       \<and> list_all (\<lambda>b. int_half fps \<le> int (length b)) (butlast bs')"
  using assms
proof (induction fs arbitrary: bs)
  case Nil
  then show ?case by simp
next
  case (Cons f fs)
  from Cons.prems(1) obtain mid where mid: "bucket_step fps bs f = Inr mid"
    and rest: "bucket_loop fps mid fs = Inr bs'"
    by (auto split: sum.splits)
  from bucket_step_invariant [OF mid Cons.prems(4)] Cons.IH [OF rest]
  show ?case by blast
qed

lemma closed_buckets_at_least_int_half:
  assumes "get_source_frame_buckets listing fps = Inr buckets"
  shows "buckets \<noteq> [] \<and> last buckets \<noteq> []
       \<and> list_all (\<lambda>b. int_half fps \<le> int (length b)) (butlast buckets)"
proof -
  from assms obtain first_frame rest where
    "bucket_loop fps [[first_frame]] rest = Inr buckets"
    by (auto simp: get_source_frame_buckets_def split: sum.splits list.splits)
  from bucket_loop_invariant [OF this] show ?thesis by simp
qed

text \<open>
  Claim C4, evaluated where it fails. At fps 5 the frames numbered 1, 2, 10 give the
  closed bucket of the frames 1 and 2: its length 2 is not below \<open>int(5 / 2) = 2\<close>, so
  it is kept, although 2 is below \<open>ceil(5 / 2) = 3\<close> (two frames at 5 fps are 0.4
  seconds, less than the half second the source's comment names).
\<close>

theorem bucketizer_keeps_short_bucket_at_odd_fps:
  "get_source_frame_buckets [''00001_50.jpg'', ''00002_50.jpg'', ''00010_50.jpg''] 5
     = Inr [[''00001_50.jpg'', ''00002_50.jpg''], [''00010_50.jpg'']]
   \<and> int_half 5 = 2 \<and> ceil_half 5 = 3
   \<and> int (length [''00001_50.jpg'', ''00002_50.jpg'']) < ceil_half 5"
proof -
  have "\<lceil>(5::real) / 2\<rceil> = 3" by linarith
  then show ?thesis
    by (simp add: bucket_defs parse_defs endswith_def ceil_half_def)
qed

section \<open>Properties of the ratio matcher\<close>

subsection \<open>The loop as a scan over the offsets\<close>

lemma error_sequence_from_0: "error_sequence 0 = probe_offsets"
  by (simp add: error_sequence.simps [of 0] error_sequence.simps [of "numeral n" for n]
      error_sequence.simps [of "- numeral n" for n] error_sequence.simps [of 1] error_sequence.simps [of "- 1"]
      next_error_def probe_offsets_def)

lemma match_loop_foldl:
  "match_loop frame fd draws r e st =
     foldl (\<lambda>st e. probe frame fd draws r e st) st (error_sequence e)"
proof (induction frame fd draws r e st rule: match_loop.induct)
  case (1 frame fd draws r e st)
  show ?case
  proof (cases "e < 20")
    case True
    with 1 show ?thesis
      by (simp add: match_loop.simps [of _ _ _ _ e] error_sequence.simps [of e])
  next
    case False
    then show ?thesis
      by (simp add: match_loop.simps [of _ _ _ _ e] error_sequence.simps [of e])
  qed
qed

lemma probe_out_of_range:
  "r + e < 1 \<or> r + e > 100 \<Longrightarrow> probe frame fd draws r e st = st"
  by (auto simp: probe_def Let_def)

lemma probe_fst:
  "fst (probe frame fd draws r e st) =
     (if draw_succeeds frame fd draws r e st then drawn_candidate fd draws r e st else fst st)"
  by (auto simp: probe_def draw_succeeds_def drawn_candidate_def Let_def split: option.splits)

lemma probe_no_entries:
  "fd (r + e) = None \<or> fd (r + e) = Some [] \<Longrightarrow> fst (probe frame fd draws r e st) = fst st"
  by (auto simp: probe_def Let_def)

lemma foldl_probe_no_entries:
  "list_all (\<lambda>e. r + e < 1 \<or> r + e > 100 \<or> fd (r + e) = None \<or> fd (r + e) = Some []) es
   \<Longrightarrow> fst (foldl (\<lambda>st e. probe frame fd draws r e st) st es) = fst st"
proof (induction es arbitrary: st)
  case Nil
  then show ?case by simp
next
  case (Cons e es)
  then have "fst (probe frame fd draws r e st) = fst st"
    using probe_out_of_range [of r e frame fd draws st] probe_no_entries [of fd r e frame draws st]
    by auto
  with Cons show ?case by simp
qed


subsection \<open>File names and paths\<close>

lemma split_chr_nonempty: "split_chr c s \<noteq> []"
  by (induction s) (auto split: list.splits)

lemma split_chr_no_sep: "c \<notin> set s \<Longrightarrow> split_chr c s = [s]"
  by (induction s) auto

lemma split_chr_append: "split_chr c (xs @ c # ys) = split_chr c xs @ split_chr c ys"
proof (induction xs)
  case Nil
  then show ?case by simp
next
  case (Cons x xs)
  then show ?case
    using split_chr_nonempty [of c xs] by (auto split: list.splits)
qed

lemma file_name_of_plain: "CHR ''/'' \<notin> set f \<Longrightarrow> file_name_of f = f"
  by (simp add: file_name_of_def split_chr_no_sep)

lemma file_name_of_slash: "CHR ''/'' \<notin> set f \<Longrightarrow> file_name_of (d @ CHR ''/'' # f) = f"
  by (simp add: file_name_of_def split_chr_append split_chr_no_sep)

lemma path_join_relative:
  "b = [] \<or> hd b \<noteq> CHR ''/'' \<Longrightarrow> path_join a b = dir_prefix a @ b"
  by (auto simp: path_join_def dir_prefix_def)

lemma dir_prefix_open:
  "a \<noteq> [] \<Longrightarrow> last a \<noteq> CHR ''/'' \<Longrightarrow> dir_prefix a = a @ ''/''"
  by (simp add: dir_prefix_def)

lemma dir_prefix_cases: "dir_prefix a = [] \<or> (\<exists>d. dir_prefix a = d @ ''/'')"
proof (cases "a = []")
  case True
  then show ?thesis by (simp add: dir_prefix_def)
next
  case False
  then have "a = butlast a @ [last a]" by simp
  then show ?thesis
    by (cases "last a = CHR ''/''") (auto simp: dir_prefix_def)
qed

lemma hd_no_slash: "CHR ''/'' \<notin> set b \<Longrightarrow> b = [] \<or> hd b \<noteq> CHR ''/''"
  by (cases b) auto

lemma last_no_slash: "CHR ''/'' \<notin> set b \<Longrightarrow> b \<noteq> [] \<Longrightarrow> last b \<noteq> CHR ''/''"
  using last_in_set by metis

lemma file_name_of_path_join:
  assumes "CHR ''/'' \<notin> set f"
  shows "file_name_of (path_join d f) = f"
proof -
  have eq: "path_join d f = dir_prefix d @ f"
    using hd_no_slash [OF assms] by (rule path_join_relative)
  from dir_prefix_cases [of d] show ?thesis
  proof
    assume "dir_prefix d = []"
    then show ?thesis using assms by (simp add: eq file_name_of_plain)
  next
    assume "\<exists>d'. dir_prefix d = d' @ ''/''"
    then obtain d' where "dir_prefix d = d' @ ''/''" ..
    then show ?thesis using file_name_of_slash [OF assms, of d'] by (simp add: eq)
  qed
qed

lemma digit_char_not_slash:
  assumes "k < 10"
  shows "char_of (48 + k :: nat) \<noteq> CHR ''/''"
proof
  assume "char_of (48 + k) = CHR ''/''"
  then have "(of_char (char_of (48 + k) :: char) :: nat) = of_char CHR ''/''" by simp
  then show False using assms by simp
qed

lemma str_nat_no_slash: "CHR ''/'' \<notin> set (str_nat n)"
proof (induction n rule: str_nat.induct)
  case (1 n)
  show ?case
  proof (cases "n < 10")
    case True
    have "str_nat n = [char_of (48 + n)]"
      using True by (subst str_nat.simps) simp
    then show ?thesis using digit_char_not_slash [OF True] by simp
  next
    case False
    have "str_nat n = str_nat (n div 10) @ [char_of (48 + n mod 10)]"
      using False by (subst str_nat.simps) simp
    moreover have "CHR ''/'' \<notin> set (str_nat (n div 10))"
      using 1 False by simp
    moreover have "char_of (48 + n mod 10) \<noteq> CHR ''/''"
      by (rule digit_char_not_slash) simp
    ultimately show ?thesis by simp
  qed
qed

lemma str_nat_nonempty: "str_nat n \<noteq> []"
  by (subst str_nat.simps) simp

lemma str_int_no_slash: "CHR ''/'' \<notin> set (str_int i)"
  by (simp add: str_int_def str_nat_no_slash)

lemma str_int_nonempty: "str_int i \<noteq> []"
  by (simp add: str_int_def str_nat_nonempty)

lemma adjusted_frame_path_eq:
  assumes "CHR ''/'' \<notin> set frame"
  shows "adjusted_frame_path src frame = dir_prefix src @ ''adjustments/'' @ frame"
proof -
  have a1: "path_join src ''adjustments'' = dir_prefix src @ ''adjustments''"
    by (rule path_join_relative) simp
  have "path_join (dir_prefix src @ ''adjustments'') frame
          = dir_prefix (dir_prefix src @ ''adjustments'') @ frame"
    using hd_no_slash [OF assms] by (rule path_join_relative)
  moreover have "dir_prefix (dir_prefix src @ ''adjustments'') = dir_prefix src @ ''adjustments/''"
    using dir_prefix_open [of "dir_prefix src @ ''adjustments''"] by simp
  ultimately show ?thesis by (simp add: adjusted_frame_path_def a1)
qed

lemma bucket_frame_path_eq:
  assumes "CHR ''/'' \<notin> set frame"
  shows "bucket_frame_path src n frame
           = dir_prefix src @ ''buckets/'' @ str_int n @ ''/'' @ frame"
proof -
  let ?s = "str_int n"
  have b1: "path_join src ''buckets'' = dir_prefix src @ ''buckets''"
    by (rule path_join_relative) simp
  have "path_join (dir_prefix src @ ''buckets'') ?s = dir_prefix (dir_prefix src @ ''buckets'') @ ?s"
    using hd_no_slash [OF str_int_no_slash [of n]] by (rule path_join_relative)
  moreover have "dir_prefix (dir_prefix src @ ''buckets'') = dir_prefix src @ ''buckets/''"
    using dir_prefix_open [of "dir_prefix src @ ''buckets''"] by simp
  ultimately have b2: "path_join (path_join src ''buckets'') ?s = dir_prefix src @ ''buckets/'' @ ?s"
    by (simp add: b1)
  have "path_join (dir_prefix src @ ''buckets/'' @ ?s) frame
          = dir_prefix (dir_prefix src @ ''buckets/'' @ ?s) @ frame"
    using hd_no_slash [OF assms] by (rule path_join_relative)
  moreover have "dir_prefix (dir_prefix src @ ''buckets/'' @ ?s)
                   = dir_prefix src @ ''buckets/'' @ ?s @ ''/''"
    using last_no_slash [OF str_int_no_slash str_int_nonempty, of n] str_int_nonempty [of n]
      dir_prefix_open [of "dir_prefix src @ ''buckets/'' @ ?s"]
    by simp
  ultimately show ?thesis by (simp add: bucket_frame_path_def b2)
qed

lemma bucket_path_differs:
  assumes "CHR ''/'' \<notin> set frame"
  shows "bucket_frame_path src n frame \<noteq> adjusted_frame_path src frame"
  by (simp add: adjusted_frame_path_eq [OF assms] bucket_frame_path_eq [OF assms])

lemma file_name_of_adjusted:
  "CHR ''/'' \<notin> set frame \<Longrightarrow> file_name_of (adjusted_frame_path src frame) = frame"
  by (simp add: adjusted_frame_path_def file_name_of_path_join)

subsection \<open>What the matcher can return\<close>

lemma probe_fst_cases:
  "fst (probe frame fd draws r e st) = fst st
   \<or> (\<exists>options. fd (r + e) = Some options
         \<and> fst (probe frame fd draws r e st) \<in> set options
         \<and> file_name_of (fst (probe frame fd draws r e st)) \<noteq> frame)"
proof (cases "fd (r + e)")
  case None
  then show ?thesis by (simp add: probe_no_entries)
next
  case (Some options)
  show ?thesis
  proof (cases "draw_succeeds frame fd draws r e st")
    case False
    then show ?thesis by (simp add: probe_fst)
  next
    case True
    then have ne: "options \<noteq> []" and nm: "file_name_of (drawn_candidate fd draws r e st) \<noteq> frame"
      using Some by (auto simp: draw_succeeds_def Let_def)
    have "drawn_candidate fd draws r e st = options ! (draws (snd st) mod length options)"
      using Some by (simp add: drawn_candidate_def)
    then have "drawn_candidate fd draws r e st \<in> set options"
      using ne by simp
    then show ?thesis using True Some nm by (simp add: probe_fst)
  qed
qed

lemma foldl_probe_default_or_candidate:
  assumes "fst st = frame_path
     \<or> (\<exists>ratio options. fd ratio = Some options \<and> fst st \<in> set options
          \<and> file_name_of (fst st) \<noteq> frame)"
  shows "fst (foldl (\<lambda>st e. probe frame fd draws r e st) st es) = frame_path
     \<or> (\<exists>ratio options. fd ratio = Some options
          \<and> fst (foldl (\<lambda>st e. probe frame fd draws r e st) st es) \<in> set options
          \<and> file_name_of (fst (foldl (\<lambda>st e. probe frame fd draws r e st) st es)) \<noteq> frame)"
  using assms
proof (induction es arbitrary: st)
  case Nil
  then show ?case by simp
next
  case (Cons e es)
  have "fst (probe frame fd draws r e st) = frame_path
     \<or> (\<exists>ratio options. fd ratio = Some options \<and> fst (probe frame fd draws r e st) \<in> set options
          \<and> file_name_of (fst (probe frame fd draws r e st)) \<noteq> frame)"
    using probe_fst_cases [of frame fd draws r e st] Cons.prems by metis
  from Cons.IH [OF this] show ?case by simp
qed

lemma matcher_default_or_candidate:
  assumes "name_ratio frame = Inr r"
  shows "\<exists>p. get_random_matching_frame frame frame_path fd draws = Inr p
     \<and> (p = frame_path
        \<or> (\<exists>ratio options. fd ratio = Some options \<and> p \<in> set options
              \<and> file_name_of p \<noteq> frame))"
  using assms foldl_probe_default_or_candidate [of "(frame_path, 0)" frame_path fd frame draws r probe_offsets]
  by (simp add: get_random_matching_frame_def match_loop_foldl error_sequence_from_0)

text \<open>A draw at offset 0 that lands on a differently named file of a single-ratio index is final.\<close>

lemma single_ratio_rest:
  "list_all (\<lambda>e. r + e < 1 \<or> 100 < r + e \<or> [r \<mapsto> options] (r + e) = None
              \<or> [r \<mapsto> options] (r + e) = Some []) (tl probe_offsets)"
  by (simp add: probe_offsets_def)

lemma matcher_single_ratio_pick:
  assumes r: "name_ratio frame = Inr r" and range: "1 \<le> r" "r \<le> 100"
    and i: "i < length options" and len: "1 < length options"
    and name: "file_name_of (options ! i) \<noteq> frame"
  shows "get_random_matching_frame frame frame_path [r \<mapsto> options] (\<lambda>k. i) = Inr (options ! i)"
proof -
  let ?fd = "[r \<mapsto> options]"
  let ?step = "\<lambda>st e. probe frame ?fd (\<lambda>k. i) r e st"
  have first: "probe frame ?fd (\<lambda>k. i) r 0 (frame_path, 0) = (options ! i, Suc 0)"
    using range i len name by (auto simp: probe_def Let_def)
  have offs: "probe_offsets = 0 # tl probe_offsets"
    by (simp add: probe_offsets_def)
  have "fst (foldl ?step (frame_path, 0) probe_offsets)
          = fst (foldl ?step (options ! i, Suc 0) (tl probe_offsets))"
    by (subst offs) (simp add: first)
  also have "\<dots> = fst (options ! i, Suc 0)"
    by (rule foldl_probe_no_entries [OF single_ratio_rest])
  also have "\<dots> = options ! i"
    by simp
  finally show ?thesis
    using r by (simp add: get_random_matching_frame_def match_loop_foldl error_sequence_from_0)
qed

text \<open>
  Claim C7. For a target frame whose name carries the ratio \<open>r\<close>, the values of
  \<^verbatim>\<open>current_error\<close> at the head of the loop are exactly
  0, 1, -1, 2, -2, ..., 19, -19 in this order: 39 probes (at most 40), each of
  magnitude below 20; the function's result is the scan of \<open>probe\<close> over this list
  from the frame's own path. A probe whose candidate ratio \<open>r + e\<close> is outside
  1..100 leaves the state as it is. When no probed ratio in range has an entry in the
  index (the ratio is absent, or its list is empty), the function returns the frame's
  own path.
\<close>

theorem matcher_probe_order:
  assumes "name_ratio frame = Inr r"
  shows "error_sequence 0 = probe_offsets
       \<and> length probe_offsets = 39 \<and> length probe_offsets \<le> 40
       \<and> list_all (\<lambda>e. \<bar>e\<bar> < 20) probe_offsets
       \<and> get_random_matching_frame frame frame_path fd draws
           = Inr (fst (foldl (\<lambda>st e. probe frame fd draws r e st) (frame_path, 0) probe_offsets))
       \<and> (\<forall>e st. r + e < 1 \<or> 100 < r + e \<longrightarrow> probe frame fd draws r e st = st)
       \<and> (list_all (\<lambda>e. r + e < 1 \<or> 100 < r + e \<or> fd (r + e) = None \<or> fd (r + e) = Some [])
             probe_offsets
            \<longrightarrow> get_random_matching_frame frame frame_path fd draws = Inr frame_path)"
proof -
  have order: "error_sequence 0 = probe_offsets"
    by (rule error_sequence_from_0)
  have len: "length probe_offsets = 39 \<and> length probe_offsets \<le> 40
       \<and> list_all (\<lambda>e. \<bar>e\<bar> < 20) probe_offsets"
    by (simp add: probe_offsets_def)
  have run: "get_random_matching_frame frame frame_path fd draws
           = Inr (fst (foldl (\<lambda>st e. probe frame fd draws r e st) (frame_path, 0) probe_offsets))"
    using assms by (simp add: get_random_matching_frame_def match_loop_foldl order)
  have skip: "\<forall>e st. r + e < 1 \<or> 100 < r + e \<longrightarrow> probe frame fd draws r e st = st"
    using probe_out_of_range by auto
  have none: "list_all (\<lambda>e. r + e < 1 \<or> 100 < r + e \<or> fd (r + e) = None \<or> fd (r + e) = Some [])
             probe_offsets
            \<longrightarrow> get_random_matching_frame frame frame_path fd draws = Inr frame_path"
    using foldl_probe_no_entries [of r fd probe_offsets frame draws "(frame_path, 0)"]
    by (simp add: run)
  from order len run skip none show ?thesis by blast
qed

theorem matcher_probe_order_witness:
  "name_ratio ''00003_95.jpg'' = Inr 95
   \<and> get_random_matching_frame ''00003_95.jpg'' ''src/buckets/1/00003_95.jpg''
        (\<lambda>ratio. None) (\<lambda>k. 0) = Inr ''src/buckets/1/00003_95.jpg''
   \<and> probe ''00003_95.jpg'' (\<lambda>ratio. None) (\<lambda>k. 0) 95 6 (''x'', 0) = (''x'', 0)"
proof -
  have r: "name_ratio ''00003_95.jpg'' = Inr 95"
    by code_simp
  have none: "list_all (\<lambda>e. 95 + e < 1 \<or> 100 < 95 + e \<or> (\<lambda>ratio. None :: string list option) (95 + e) = None
                 \<or> (\<lambda>ratio. None) (95 + e) = Some []) probe_offsets"
    by (simp add: probe_offsets_def)
  note inst = matcher_probe_order [OF r, of "''src/buckets/1/00003_95.jpg''" "\<lambda>ratio. None" "\<lambda>k. 0"]
  from inst none have run: "get_random_matching_frame ''00003_95.jpg'' ''src/buckets/1/00003_95.jpg''
        (\<lambda>ratio. None) (\<lambda>k. 0) = Inr ''src/buckets/1/00003_95.jpg''"
    by blast
  from inst have "95 + (6::int) < 1 \<or> 100 < 95 + (6::int) \<longrightarrow>
       probe ''00003_95.jpg'' (\<lambda>ratio. None) (\<lambda>k. 0) 95 6 (''x'', 0) = (''x'', 0)"
    by blast
  then have skip: "probe ''00003_95.jpg'' (\<lambda>ratio. None) (\<lambda>k. 0) 95 6 (''x'', 0) = (''x'', 0)"
    by simp
  from r run skip show ?thesis by blast
qed



text \<open>
  Claim C8, as amended. The index holds three frames at ratio 50: the target's own
  file \<open>adjusted_frame_path source_a frame\<close> and the files \<open>pb\<close> and \<open>pc\<close> of two
  other sources. The matcher is called as \<open>compile_video\<close> calls it, with the path of
  the frame in the bucket's working directory. For every random source the result is
  that path, \<open>pb\<close> or \<open>pc\<close>, and never the target's own file in the index. When the
  file name of \<open>pb\<close> differs from the target's, some random source yields \<open>pb\<close>;
  likewise for \<open>pc\<close>. The exclusion compares file names only, so the proviso is
  needed: a frame of another source with the target's file name is excluded as well.
\<close>

theorem three_sources_at_ratio_50:
  assumes ratio: "name_ratio frame = Inr 50"
    and plain: "CHR ''/'' \<notin> set frame"
    and index: "set options = {adjusted_frame_path source_a frame, pb, pc}"
    and three: "length options = 3"
  shows "(\<forall>draws. \<exists>p.
            get_random_matching_frame frame (bucket_frame_path source_a n frame)
              [50 \<mapsto> options] draws = Inr p
            \<and> p \<noteq> adjusted_frame_path source_a frame
            \<and> (p = bucket_frame_path source_a n frame \<or> p = pb \<or> p = pc))
       \<and> (file_name_of pb \<noteq> frame \<longrightarrow>
            (\<exists>draws. get_random_matching_frame frame (bucket_frame_path source_a n frame)
                        [50 \<mapsto> options] draws = Inr pb))
       \<and> (file_name_of pc \<noteq> frame \<longrightarrow>
            (\<exists>draws. get_random_matching_frame frame (bucket_frame_path source_a n frame)
                        [50 \<mapsto> options] draws = Inr pc))"
proof -
  let ?pa = "adjusted_frame_path source_a frame"
  let ?fp = "bucket_frame_path source_a n frame"
  let ?fd = "[50 \<mapsto> options] :: frame_dict"
  have own_name: "file_name_of ?pa = frame"
    using plain by (rule file_name_of_adjusted)
  have differs: "?fp \<noteq> ?pa"
    using plain by (rule bucket_path_differs)
  have never: "\<exists>p. get_random_matching_frame frame ?fp ?fd draws = Inr p
            \<and> p \<noteq> ?pa \<and> (p = ?fp \<or> p = pb \<or> p = pc)" for draws
  proof -
    from matcher_default_or_candidate [OF ratio, of ?fp ?fd draws]
    obtain p where run: "get_random_matching_frame frame ?fp ?fd draws = Inr p"
      and p: "p = ?fp \<or> (\<exists>ratio opts. ?fd ratio = Some opts \<and> p \<in> set opts
                               \<and> file_name_of p \<noteq> frame)"
      by blast
    from p show ?thesis
    proof
      assume "p = ?fp"
      with run differs show ?thesis by simp
    next
      assume "\<exists>ratio opts. ?fd ratio = Some opts \<and> p \<in> set opts \<and> file_name_of p \<noteq> frame"
      then obtain ratio' opts where "?fd ratio' = Some opts" and mem: "p \<in> set opts"
        and nm: "file_name_of p \<noteq> frame"
        by blast
      then have "opts = options" by (auto split: if_splits)
      with mem index have "p = ?pa \<or> p = pb \<or> p = pc" by auto
      moreover have "p \<noteq> ?pa" using nm own_name by auto
      ultimately show ?thesis using run by auto
    qed
  qed
  have pick: "\<exists>draws. get_random_matching_frame frame ?fp ?fd draws = Inr q"
    if mem: "q \<in> set options" and nm: "file_name_of q \<noteq> frame" for q
  proof -
    from mem obtain i where i: "i < length options" and q: "options ! i = q"
      by (auto simp: in_set_conv_nth)
    have "get_random_matching_frame frame ?fp ?fd (\<lambda>k. i) = Inr (options ! i)"
      using i three nm q by (intro matcher_single_ratio_pick [OF ratio]) auto
    then show ?thesis using q by auto
  qed
  have "pb \<in> set options" and "pc \<in> set options"
    using index by auto
  with never pick show ?thesis by blast
qed

theorem three_sources_at_ratio_50_witness:
  "name_ratio ''00001_50.jpg'' = Inr 50
   \<and> adjusted_frame_path ''ref/A'' ''00001_50.jpg'' = ''ref/A/adjustments/00001_50.jpg''
   \<and> bucket_frame_path ''ref/A'' 1 ''00001_50.jpg'' = ''ref/A/buckets/1/00001_50.jpg''
   \<and> (\<exists>draws. get_random_matching_frame ''00001_50.jpg'' ''ref/A/buckets/1/00001_50.jpg''
          [50 \<mapsto> [''ref/A/adjustments/00001_50.jpg'', ''ref/B/adjustments/00002_50.jpg'',
                  ''ref/C/adjustments/00003_50.jpg'']] draws
        = Inr ''ref/B/adjustments/00002_50.jpg'')
   \<and> (\<exists>draws. get_random_matching_frame ''00001_50.jpg'' ''ref/A/buckets/1/00001_50.jpg''
          [50 \<mapsto> [''ref/A/adjustments/00001_50.jpg'', ''ref/B/adjustments/00002_50.jpg'',
                  ''ref/C/adjustments/00003_50.jpg'']] draws
        = Inr ''ref/C/adjustments/00003_50.jpg'')
   \<and> get_random_matching_frame ''00001_50.jpg'' ''ref/A/buckets/1/00001_50.jpg''
          [50 \<mapsto> [''ref/A/adjustments/00001_50.jpg'', ''ref/B/adjustments/00002_50.jpg'',
                  ''ref/C/adjustments/00003_50.jpg'']] (\<lambda>k. 0)
        = Inr ''ref/A/buckets/1/00001_50.jpg''"
proof -
  let ?f = "''00001_50.jpg''"
  let ?pb = "''ref/B/adjustments/00002_50.jpg''"
  let ?pc = "''ref/C/adjustments/00003_50.jpg''"
  let ?opts = "[''ref/A/adjustments/00001_50.jpg'', ?pb, ?pc]"
  have r: "name_ratio ?f = Inr 50"
    by code_simp
  have plain: "CHR ''/'' \<notin> set ?f"
    by simp
  have pa: "adjusted_frame_path ''ref/A'' ?f = ''ref/A/adjustments/00001_50.jpg''"
    by code_simp
  have fp: "bucket_frame_path ''ref/A'' 1 ?f = ''ref/A/buckets/1/00001_50.jpg''"
    by code_simp
  have index: "set ?opts = {adjusted_frame_path ''ref/A'' ?f, ?pb, ?pc}"
    by (simp add: pa)
  have nb: "file_name_of ?pb \<noteq> ?f" and nc: "file_name_of ?pc \<noteq> ?f"
    by code_simp+
  have default: "get_random_matching_frame ?f ''ref/A/buckets/1/00001_50.jpg''
          [50 \<mapsto> ?opts] (\<lambda>k. 0) = Inr ''ref/A/buckets/1/00001_50.jpg''"
    by code_simp
  from three_sources_at_ratio_50 [OF r plain index, of 1] nb nc
  have "(\<exists>draws. get_random_matching_frame ?f (bucket_frame_path ''ref/A'' 1 ?f)
                        [50 \<mapsto> ?opts] draws = Inr ?pb)
      \<and> (\<exists>draws. get_random_matching_frame ?f (bucket_frame_path ''ref/A'' 1 ?f)
                        [50 \<mapsto> ?opts] draws = Inr ?pc)"
    by simp
  then show ?thesis using r pa fp default by simp
qed

text \<open>
  Claim C8 as stated fails where another source's frame has the target's file name:
  with \<open>00001_50.jpg\<close> in each of the sources A, B and C, no random source makes the
  matcher return the frame of B.
\<close>

theorem three_sources_same_name_counterexample:
  "\<not> (\<exists>draws. get_random_matching_frame ''00001_50.jpg'' ''ref/A/buckets/1/00001_50.jpg''
          [50 \<mapsto> [''ref/A/adjustments/00001_50.jpg'', ''ref/B/adjustments/00001_50.jpg'',
                  ''ref/C/adjustments/00001_50.jpg'']] draws
        = Inr ''ref/B/adjustments/00001_50.jpg'')"
proof
  let ?fd = "[50 \<mapsto> [''ref/A/adjustments/00001_50.jpg'', ''ref/B/adjustments/00001_50.jpg'',
                  ''ref/C/adjustments/00001_50.jpg'']] :: frame_dict"
  assume "\<exists>draws. get_random_matching_frame ''00001_50.jpg'' ''ref/A/buckets/1/00001_50.jpg''
          ?fd draws = Inr ''ref/B/adjustments/00001_50.jpg''"
  then obtain draws where run: "get_random_matching_frame ''00001_50.jpg''
      ''ref/A/buckets/1/00001_50.jpg'' ?fd draws = Inr ''ref/B/adjustments/00001_50.jpg''" ..
  have r: "name_ratio ''00001_50.jpg'' = Inr 50"
    by code_simp
  have same: "file_name_of ''ref/B/adjustments/00001_50.jpg'' = ''00001_50.jpg''"
    by code_simp
  from matcher_default_or_candidate [OF r, of "''ref/A/buckets/1/00001_50.jpg''" ?fd draws] run
  have "''ref/B/adjustments/00001_50.jpg'' = ''ref/A/buckets/1/00001_50.jpg''
      \<or> file_name_of ''ref/B/adjustments/00001_50.jpg'' \<noteq> ''00001_50.jpg''"
    by auto
  with same show False by simp
qed

section \<open>Properties of the alignment pipeline\<close>

subsection \<open>The crop\<close>

text \<open>
  For a box of width and height at least 150 the crop exists; the larger dimension is
  kept and the shorter one grows by \<open>int(diff / 2)\<close> on each of its two sides, that is
  by \<open>2 * (diff div 2)\<close> in all. The crop is square exactly when the difference of the
  two dimensions is even.
\<close>

lemma crop_image_size:
  assumes "150 \<le> right - left" and "150 \<le> bottom_edge - top_edge"
  shows "\<exists>cropped. crop_image img (left, top_edge, bottom_edge, right) = Some cropped
     \<and> image_size cropped =
         (if right - left < bottom_edge - top_edge
          then (right - left + 2 * (((bottom_edge - top_edge) - (right - left)) div 2),
                bottom_edge - top_edge)
          else (right - left,
                bottom_edge - top_edge + 2 * (((right - left) - (bottom_edge - top_edge)) div 2)))"
  using assms by (simp add: crop_image_def Let_def int_half_def)

lemma crop_image_square_iff:
  assumes "150 \<le> right - left" and "150 \<le> bottom_edge - top_edge"
    and "crop_image img (left, top_edge, bottom_edge, right) = Some cropped"
  shows "fst (image_size cropped) = snd (image_size cropped)
     \<longleftrightarrow> even ((bottom_edge - top_edge) - (right - left))"
proof -
  from crop_image_size [OF assms(1,2), of img] assms(3)
  have "image_size cropped =
         (if right - left < bottom_edge - top_edge
          then (right - left + 2 * (((bottom_edge - top_edge) - (right - left)) div 2),
                bottom_edge - top_edge)
          else (right - left,
                bottom_edge - top_edge + 2 * (((right - left) - (bottom_edge - top_edge)) div 2)))"
    by simp
  then show ?thesis
    by (auto split: if_splits) presburger+
qed

text \<open>
  Claim C3, evaluated where it fails. The box with left 0, top 0, bottom 151, right
  150 has width 150 and height 151; \<open>int(1 / 2) = 0\<close> is added on the left and on the
  right, so the crop is 150 wide and 151 high: not square, and the odd pixel of the
  difference is added on neither side.
\<close>

theorem crop_image_odd_difference_not_square:
  "crop_image (Opened ''00001.jpg'' 640 480) (0, 0, 151, 150)
     = Some (Cropped (Opened ''00001.jpg'' 640 480) 0 0 150 151)
   \<and> image_size (Cropped (Opened ''00001.jpg'' 640 480) 0 0 150 151) = (150, 151)"
  by (simp add: crop_image_def int_half_def)

subsection \<open>The mouth-open ratio\<close>

lemma hypot_euclid: "hypot (fst q - fst p) (snd q - snd p) = euclid p q"
proof -
  have "real_of_int ((fst q - fst p) * (fst q - fst p) + (snd q - snd p) * (snd q - snd p))
      = (real_of_int (fst p) - real_of_int (fst q))\<^sup>2
        + (real_of_int (snd p) - real_of_int (snd q))\<^sup>2"
    by (simp add: power2_eq_square algebra_simps)
  then show ?thesis by (simp add: hypot_def euclid_def)
qed

lemma euclid_commute: "euclid p q = euclid q p"
  by (simp add: euclid_def power2_commute)

lemma euclid_nonneg: "0 \<le> euclid p q"
  by (simp add: euclid_def)

lemma euclid_zero_iff: "euclid p q = 0 \<longleftrightarrow> p = q"
proof -
  have "euclid p q = 0 \<longleftrightarrow>
      (real_of_int (fst p) - real_of_int (fst q))\<^sup>2
        + (real_of_int (snd p) - real_of_int (snd q))\<^sup>2 = 0"
    by (simp add: euclid_def)
  also have "\<dots> \<longleftrightarrow> fst p = fst q \<and> snd p = snd q"
    by (simp add: sum_power2_eq_zero_iff)
  also have "\<dots> \<longleftrightarrow> p = q"
    by (simp add: prod_eq_iff)
  finally show ?thesis .
qed

lemma int_half_length: "nat (int_half (int (length xs))) = length xs div 2"
  by (simp add: int_half_def nat_div_distrib)

lemma clamp_ratio_range: "1 \<le> clamp_ratio n \<and> clamp_ratio n \<le> 100"
  by (simp add: clamp_ratio_def)

lemma get_mouth_open_ratio_spec:
  assumes "face_landmarks adjusted_image = face0 # others"
    and "top_lip face0 \<noteq> []" and "bottom_lip face0 \<noteq> []"
  shows "get_mouth_open_ratio face_landmarks adjusted_image =
           (if spec_lip_width face0 = 0 then Inl ZeroDivisionError
            else Inr (Some (spec_ratio_truncated face0)))"
proof -
  have len: "length (sort_key fst (top_lip face0)) = length (top_lip face0)"
    "length (sort_key fst (bottom_lip face0)) = length (bottom_lip face0)"
    by simp_all
  have "sort_key fst (bottom_lip face0) \<noteq> []" "sort_key fst (top_lip face0) \<noteq> []"
    using assms(2,3) len by (metis length_0_conv)+
  then have ne: "(sort_key fst (bottom_lip face0) = []) = False"
    "(sort_key fst (top_lip face0) = []) = False"
    by simp_all
  show ?thesis
    by (simp only: get_mouth_open_ratio_def Let_def assms(1) list.case ne if_False
        hypot_euclid int_half_length len spec_lip_width_def spec_mouth_height_def
        spec_ratio_truncated_def clamp_ratio_def x_median_def
        euclid_commute [of "sort_key fst (bottom_lip face0) ! (length (bottom_lip face0) div 2)"
          "sort_key fst (top_lip face0) ! (length (top_lip face0) div 2)"])
qed


lemma spec_lip_width_nonneg: "0 \<le> spec_lip_width f"
  by (simp add: spec_lip_width_def euclid_nonneg)

lemma spec_lip_width_zero_iff:
  "spec_lip_width f = 0 \<longleftrightarrow>
     hd (sort_key fst (bottom_lip f)) = last (sort_key fst (bottom_lip f))
     \<and> hd (sort_key fst (top_lip f)) = last (sort_key fst (top_lip f))"
proof -
  let ?b = "euclid (hd (sort_key fst (bottom_lip f))) (last (sort_key fst (bottom_lip f)))"
  let ?t = "euclid (hd (sort_key fst (top_lip f))) (last (sort_key fst (top_lip f)))"
  have "0 \<le> ?b" "0 \<le> ?t" by (rule euclid_nonneg)+
  then have "(?b + ?t) / 2 = 0 \<longleftrightarrow> ?b = 0 \<and> ?t = 0" by auto
  then show ?thesis by (simp add: spec_lip_width_def euclid_zero_iff)
qed

lemma euclid_same_y: "euclid (x1, y) (x2, y) = \<bar>real_of_int x1 - real_of_int x2\<bar>"
  by (simp add: euclid_def)

lemma euclid_same_x: "euclid (x, y1) (x, y2) = \<bar>real_of_int y1 - real_of_int y2\<bar>"
  by (simp add: euclid_def)

lemma sqrt_45000: "sqrt 2025000000 = 45000"
proof -
  have "sqrt ((45000::real)\<^sup>2) = 45000" by simp
  moreover have "(45000::real)\<^sup>2 = 2025000000" by simp
  ultimately show ?thesis by simp
qed

lemma floor_le_round: "\<lfloor>x\<rfloor> \<le> round (x::real) \<and> round x \<le> \<lfloor>x\<rfloor> + 1"
  unfolding round_def by linarith

lemma spec_quotient_nonneg:
  "0 \<le> spec_mouth_height f / spec_lip_width f * 100"
  by (simp add: spec_mouth_height_def euclid_nonneg spec_lip_width_nonneg)

text \<open>
  Claim C5, as amended. When the detection finds landmarks (the first face is
  \<open>face0\<close>), both lips have points and the lip width is not zero, a ratio is returned;
  it is an integer between 1 and 100, and it is the clamped rounded quotient
  \<open>clamp(round(height / width * 100), 1, 100)\<close> or one below it, with height and width
  as the specification defines them: the source truncates with \<^verbatim>\<open>int\<close> where the
  claim rounds. The bounds leave a margin of one half for the quotient, so rounding
  errors of the floating-point operations do not affect them.
\<close>

theorem mouth_open_ratio_truncated_not_rounded:
  assumes "face_landmarks adjusted_image = face0 # others"
    and "top_lip face0 \<noteq> []" and "bottom_lip face0 \<noteq> []"
    and "spec_lip_width face0 \<noteq> 0"
  shows "\<exists>ratio. get_mouth_open_ratio face_landmarks adjusted_image = Inr (Some ratio)
       \<and> 1 \<le> ratio \<and> ratio \<le> 100
       \<and> spec_ratio_rounded face0 - 1 \<le> ratio \<and> ratio \<le> spec_ratio_rounded face0"
proof -
  let ?q = "spec_mouth_height face0 / spec_lip_width face0 * 100"
  have run: "get_mouth_open_ratio face_landmarks adjusted_image
               = Inr (Some (clamp_ratio (py_trunc ?q)))"
    using get_mouth_open_ratio_spec [of face_landmarks adjusted_image face0 others,
        OF assms(1,2,3)] assms(4)
    by (simp add: spec_ratio_truncated_def)
  have "py_trunc ?q = \<lfloor>?q\<rfloor>"
    using spec_quotient_nonneg [of face0] by (simp add: py_trunc_def)
  then have near: "py_trunc ?q \<le> round ?q \<and> round ?q \<le> py_trunc ?q + 1"
    using floor_le_round [of ?q] by simp
  have "clamp_ratio (round ?q) - 1 \<le> clamp_ratio (py_trunc ?q)
      \<and> clamp_ratio (py_trunc ?q) \<le> clamp_ratio (round ?q)"
    using near unfolding clamp_ratio_def min_def max_def by auto
  then show ?thesis
    using run clamp_ratio_range [of "py_trunc ?q"] by (simp add: spec_ratio_rounded_def)
qed

theorem mouth_open_ratio_truncated_not_rounded_witness:
  "spec_lip_width
       \<lparr>top_lip = [(0, 0), (300, 0), (150, 0)],
        bottom_lip = [(300, 0), (0, 0), (150, 47)],
        left_eyebrow = [(200, 100), (250, 100)],
        right_eyebrow = [(50, 100), (100, 100)]\<rparr> = 300
   \<and> spec_ratio_rounded
       \<lparr>top_lip = [(0, 0), (300, 0), (150, 0)],
        bottom_lip = [(300, 0), (0, 0), (150, 47)],
        left_eyebrow = [(200, 100), (250, 100)],
        right_eyebrow = [(50, 100), (100, 100)]\<rparr> = 16
   \<and> (\<exists>ratio. get_mouth_open_ratio
          (\<lambda>img. [\<lparr>top_lip = [(0, 0), (300, 0), (150, 0)],
                   bottom_lip = [(300, 0), (0, 0), (150, 47)],
                   left_eyebrow = [(200, 100), (250, 100)],
                   right_eyebrow = [(50, 100), (100, 100)]\<rparr>])
          (Opened ''00001.jpg'' 300 300) = Inr (Some ratio)
        \<and> 15 \<le> ratio \<and> ratio \<le> 16)"
proof -
  let ?f = "\<lparr>top_lip = [(0, 0), (300, 0), (150, 0)],
        bottom_lip = [(300, 0), (0, 0), (150, 47)],
        left_eyebrow = [(200, 100), (250, 100)],
        right_eyebrow = [(50, 100), (100, 100)]\<rparr> :: face"
  have w: "spec_lip_width ?f = 300"
    by (simp add: spec_lip_width_def euclid_same_y)
  have h: "spec_mouth_height ?f = 47"
    by (simp add: spec_mouth_height_def x_median_def euclid_same_x)
  have r: "spec_ratio_rounded ?f = 16"
    by (simp add: spec_ratio_rounded_def w h round_def clamp_ratio_def)
  have "\<exists>ratio. get_mouth_open_ratio (\<lambda>img. [?f]) (Opened ''00001.jpg'' 300 300)
                   = Inr (Some ratio)
               \<and> 15 \<le> ratio \<and> ratio \<le> 16"
    using mouth_open_ratio_truncated_not_rounded
      [of "\<lambda>img. [?f]" "Opened ''00001.jpg'' 300 300" ?f "[]"] w r
    by auto
  with w r show ?thesis by blast
qed

text \<open>
  Claim C5 as stated fails where the quotient has a fractional part of at least one
  half: with lip width 300 and mouth height 47 the quotient is 15.66..., the source
  returns 15 and the rounded formula gives 16. (47 / 300 * 100 is far from an integer
  and from a half, so floating-point rounding and the tie rule play no part.)
\<close>

theorem mouth_open_ratio_rounding_counterexample:
  "get_mouth_open_ratio
     (\<lambda>img. [\<lparr>top_lip = [(0, 0), (300, 0), (150, 0)],
              bottom_lip = [(300, 0), (0, 0), (150, 47)],
              left_eyebrow = [(200, 100), (250, 100)],
              right_eyebrow = [(50, 100), (100, 100)]\<rparr>])
     (Opened ''00001.jpg'' 300 300) = Inr (Some 15)
   \<and> spec_ratio_rounded
       \<lparr>top_lip = [(0, 0), (300, 0), (150, 0)],
        bottom_lip = [(300, 0), (0, 0), (150, 47)],
        left_eyebrow = [(200, 100), (250, 100)],
        right_eyebrow = [(50, 100), (100, 100)]\<rparr> = 16"
proof -
  let ?f = "\<lparr>top_lip = [(0, 0), (300, 0), (150, 0)],
        bottom_lip = [(300, 0), (0, 0), (150, 47)],
        left_eyebrow = [(200, 100), (250, 100)],
        right_eyebrow = [(50, 100), (100, 100)]\<rparr> :: face"
  have w: "spec_lip_width ?f = 300"
    by (simp add: spec_lip_width_def euclid_same_y)
  have h: "spec_mouth_height ?f = 47"
    by (simp add: spec_mouth_height_def x_median_def euclid_same_x)
  have "get_mouth_open_ratio (\<lambda>img. [?f]) (Opened ''00001.jpg'' 300 300)
          = Inr (Some (spec_ratio_truncated ?f))"
    using get_mouth_open_ratio_spec [of "\<lambda>img. [?f]" "Opened ''00001.jpg'' 300 300" ?f "[]"] w
    by simp
  moreover have "spec_ratio_truncated ?f = 15"
    by (simp add: spec_ratio_truncated_def w h py_trunc_def clamp_ratio_def)
  moreover have "spec_ratio_rounded ?f = 16"
    by (simp add: spec_ratio_rounded_def w h round_def clamp_ratio_def)
  ultimately show ?thesis by simp
qed

text \<open>
  Claim C6, as amended. There is no guard on the lip width. When the detection finds
  landmarks and both lips have points: if the lip width is zero, which is the case
  exactly when in each lip the first and the last point by \<open>x\<close> coincide, the division
  is evaluated with the divisor zero and raises \<open>ZeroDivisionError\<close>; if the lip width
  is not zero, a ratio between 1 and 100 is returned.
\<close>

theorem mouth_open_ratio_zero_width:
  assumes "face_landmarks adjusted_image = face0 # others"
    and "top_lip face0 \<noteq> []" and "bottom_lip face0 \<noteq> []"
  shows "(spec_lip_width face0 = 0 \<longrightarrow>
            get_mouth_open_ratio face_landmarks adjusted_image = Inl ZeroDivisionError)
       \<and> (spec_lip_width face0 \<noteq> 0 \<longrightarrow>
            (\<exists>ratio. get_mouth_open_ratio face_landmarks adjusted_image = Inr (Some ratio)
                     \<and> 1 \<le> ratio \<and> ratio \<le> 100))
       \<and> (spec_lip_width face0 = 0 \<longleftrightarrow>
            hd (sort_key fst (bottom_lip face0)) = last (sort_key fst (bottom_lip face0))
            \<and> hd (sort_key fst (top_lip face0)) = last (sort_key fst (top_lip face0)))"
  using get_mouth_open_ratio_spec [of face_landmarks adjusted_image face0 others, OF assms] clamp_ratio_range spec_lip_width_zero_iff [of face0]
  by (simp add: spec_ratio_truncated_def)

theorem mouth_open_ratio_zero_width_witness:
  "spec_lip_width
     \<lparr>top_lip = [(5, 5), (5, 5), (5, 5)],
      bottom_lip = [(5, 5), (5, 5), (5, 5)],
      left_eyebrow = [(200, 100), (250, 100)],
      right_eyebrow = [(50, 100), (100, 100)]\<rparr> = 0
   \<and> get_mouth_open_ratio
     (\<lambda>img. [\<lparr>top_lip = [(5, 5), (5, 5), (5, 5)],
              bottom_lip = [(5, 5), (5, 5), (5, 5)],
              left_eyebrow = [(200, 100), (250, 100)],
              right_eyebrow = [(50, 100), (100, 100)]\<rparr>])
     (Opened ''00002.jpg'' 300 300) = Inl ZeroDivisionError
   \<and> (\<exists>ratio. get_mouth_open_ratio
     (\<lambda>img. [\<lparr>top_lip = [(0, 0), (300, 0), (150, 0)],
              bottom_lip = [(300, 0), (0, 0), (150, 47)],
              left_eyebrow = [(200, 100), (250, 100)],
              right_eyebrow = [(50, 100), (100, 100)]\<rparr>])
     (Opened ''00002.jpg'' 300 300) = Inr (Some ratio) \<and> 1 \<le> ratio \<and> ratio \<le> 100)"
proof -
  let ?z = "\<lparr>top_lip = [(5, 5), (5, 5), (5, 5)],
              bottom_lip = [(5, 5), (5, 5), (5, 5)],
              left_eyebrow = [(200, 100), (250, 100)],
              right_eyebrow = [(50, 100), (100, 100)]\<rparr> :: face"
  let ?f = "\<lparr>top_lip = [(0, 0), (300, 0), (150, 0)],
        bottom_lip = [(300, 0), (0, 0), (150, 47)],
        left_eyebrow = [(200, 100), (250, 100)],
        right_eyebrow = [(50, 100), (100, 100)]\<rparr> :: face"
  have z: "spec_lip_width ?z = 0"
    by (simp add: spec_lip_width_def euclid_same_y)
  have w: "spec_lip_width ?f = 300"
    by (simp add: spec_lip_width_def euclid_same_y)
  have a: "get_mouth_open_ratio (\<lambda>img. [?z]) (Opened ''00002.jpg'' 300 300)
             = Inl ZeroDivisionError"
    using mouth_open_ratio_zero_width
      [of "\<lambda>img. [?z]" "Opened ''00002.jpg'' 300 300" ?z "[]"] z
    by simp
  have b: "\<exists>ratio. get_mouth_open_ratio (\<lambda>img. [?f]) (Opened ''00002.jpg'' 300 300)
             = Inr (Some ratio) \<and> 1 \<le> ratio \<and> ratio \<le> 100"
    using mouth_open_ratio_zero_width
      [of "\<lambda>img. [?f]" "Opened ''00002.jpg'' 300 300" ?f "[]"] w
    by simp
  from z a b show ?thesis by blast
qed

text \<open>
  Claim C6 as stated fails where all lip points coincide: both lip widths are zero and
  the function raises \<open>ZeroDivisionError\<close>.
\<close>

theorem mouth_open_ratio_zero_width_counterexample:
  "get_mouth_open_ratio
     (\<lambda>img. [\<lparr>top_lip = [(5, 5), (5, 5), (5, 5)],
              bottom_lip = [(5, 5), (5, 5), (5, 5)],
              left_eyebrow = [(200, 100), (250, 100)],
              right_eyebrow = [(50, 100), (100, 100)]\<rparr>])
     (Opened ''00001.jpg'' 300 300) = Inl ZeroDivisionError"
proof -
  let ?f = "\<lparr>top_lip = [(5, 5), (5, 5), (5, 5)],
              bottom_lip = [(5, 5), (5, 5), (5, 5)],
              left_eyebrow = [(200, 100), (250, 100)],
              right_eyebrow = [(50, 100), (100, 100)]\<rparr> :: face"
  have w: "spec_lip_width ?f = 0"
    by (simp add: spec_lip_width_def euclid_same_y)
  show ?thesis
    using get_mouth_open_ratio_spec [of "\<lambda>img. [?f]" "Opened ''00001.jpg'' 300 300" ?f "[]"] w
    by simp
qed

subsection \<open>The whole pipeline\<close>

text \<open>
  A run in which every stage succeeds writes one file whose name carries the ratio:
  here \<open>00001_15.jpg\<close>.
\<close>

lemma adjust_writes_ratio_in_file_name:
  "adjust
     (\<lambda>img. [\<lparr>top_lip = [(0, 0), (300, 0), (150, 0)],
              bottom_lip = [(300, 0), (0, 0), (150, 47)],
              left_eyebrow = [(200, 100), (250, 100)],
              right_eyebrow = [(50, 100), (100, 100)]\<rparr>])
     ''/videos/v1/frames/00001.jpg''
     (Opened ''/videos/v1/frames/00001.jpg'' 640 480)
     (100, 50, 350, 400) ''/videos/v1/adjustments'' Map.empty
   = Inr [''/videos/v1/adjustments/00001_15.jpg'' \<mapsto>
            Grayscale (Resized (Shifted (Rotated
              (Cropped (Opened ''/videos/v1/frames/00001.jpg'' 640 480) 100 50 400 350) 0)
              0 177) 300 300)]"
proof -
  let ?f = "\<lparr>top_lip = [(0, 0), (300, 0), (150, 0)],
                     bottom_lip = [(300, 0), (0, 0), (150, 47)],
                     left_eyebrow = [(200, 100), (250, 100)],
                     right_eyebrow = [(50, 100), (100, 100)]\<rparr> :: face"
  let ?detect = "\<lambda>img::image. [?f]"
  let ?opened = "Opened ''/videos/v1/frames/00001.jpg'' 640 480"
  let ?cropped = "Cropped ?opened 100 50 400 350"
  have crop: "crop_image ?opened (100, 50, 350, 400) = Some ?cropped"
    by (simp add: crop_image_def int_half_def)
  have w: "spec_lip_width ?f = 300"
    by (simp add: spec_lip_width_def euclid_same_y)
  have h: "spec_mouth_height ?f = 47"
    by (simp add: spec_mouth_height_def x_median_def euclid_same_x)
  have "get_mouth_open_ratio ?detect ?cropped = Inr (Some (spec_ratio_truncated ?f))"
    using get_mouth_open_ratio_spec [of ?detect ?cropped ?f "[]"] w by simp
  moreover have "spec_ratio_truncated ?f = 15"
    by (simp add: spec_ratio_truncated_def w h py_trunc_def clamp_ratio_def)
  ultimately have ratio: "get_mouth_open_ratio ?detect ?cropped = Inr (Some 15)"
    by simp
  have rot: "rotate_image ?detect ?cropped = Inr (Some (Rotated ?cropped 0))"
    by (simp add: rotate_image_def sqrt_45000)
  have cen: "center_image ?detect (Rotated ?cropped 0)
               = Inr (Some (Shifted (Rotated ?cropped 0) 0 177))"
    by (simp add: center_image_def list_min_def list_max_def int_half_def py_trunc_def)
  have name: "strip_chars ''.jpg'' (path_join ''/videos/v1/adjustments''
                 (file_name_of ''/videos/v1/frames/00001.jpg''))
               @ ''_'' @ format_ratio (Some 15) @ ''.jpg''
             = ''/videos/v1/adjustments/00001_15.jpg''"
    by code_simp
  show ?thesis
    unfolding adjust_def Let_def
    by (simp only: crop ratio rot cen name option.case sum.case resize_image_def
        grayscale_image_def)
qed

text \<open>
  Claim C9. When the box is large enough to be cropped and the detection finds no
  landmarks on the cropped image, \<open>adjust\<close> writes nothing: the store it returns is the
  store it was given, whatever the detection would find on any other image (the
  rotated one of the centering stage included) and whatever the store holds.
  \<open>get_mouth_open_ratio\<close> returns without a ratio, and \<open>rotate_image\<close>, which asks for
  the landmarks of the same cropped image, returns without an image; the test on its
  result ends the run before the centering stage and before the file is saved.
\<close>

theorem adjust_aborts_without_landmarks:
  assumes "crop_image opened bounding_box = Some cropped"
    and "face_landmarks cropped = []"
  shows "get_mouth_open_ratio face_landmarks cropped = Inr None
       \<and> rotate_image face_landmarks cropped = Inr None
       \<and> adjust face_landmarks image_path opened bounding_box adjustments_path store
           = Inr store"
  using assms by (simp add: adjust_def get_mouth_open_ratio_def rotate_image_def)

theorem adjust_aborts_without_landmarks_witness:
  "crop_image (Opened ''/videos/v1/frames/00001.jpg'' 640 480) (100, 50, 350, 400)
     = Some (Cropped (Opened ''/videos/v1/frames/00001.jpg'' 640 480) 100 50 400 350)
   \<and> adjust
       (\<lambda>img. if img = Cropped (Opened ''/videos/v1/frames/00001.jpg'' 640 480) 100 50 400 350
              then []
              else [\<lparr>top_lip = [(0, 0), (300, 0), (150, 0)],
                     bottom_lip = [(300, 0), (0, 0), (150, 47)],
                     left_eyebrow = [(200, 100), (250, 100)],
                     right_eyebrow = [(50, 100), (100, 100)]\<rparr>])
       ''/videos/v1/frames/00001.jpg''
       (Opened ''/videos/v1/frames/00001.jpg'' 640 480)
       (100, 50, 350, 400) ''/videos/v1/adjustments''
       [''/videos/v1/adjustments/00000_40.jpg'' \<mapsto> Grayscale (Opened ''x'' 300 300)]
     = Inr [''/videos/v1/adjustments/00000_40.jpg'' \<mapsto> Grayscale (Opened ''x'' 300 300)]"
proof -
  let ?opened = "Opened ''/videos/v1/frames/00001.jpg'' 640 480"
  let ?cropped = "Cropped ?opened 100 50 400 350"
  let ?detect = "\<lambda>img. if img = ?cropped then []
              else [\<lparr>top_lip = [(0, 0), (300, 0), (150, 0)],
                     bottom_lip = [(300, 0), (0, 0), (150, 47)],
                     left_eyebrow = [(200, 100), (250, 100)],
                     right_eyebrow = [(50, 100), (100, 100)]\<rparr>]"
  have crop: "crop_image ?opened (100, 50, 350, 400) = Some ?cropped"
    by (simp add: crop_image_def int_half_def)
  have none: "?detect ?cropped = []"
    by simp
  from adjust_aborts_without_landmarks [of ?opened "(100, 50, 350, 400)" ?cropped ?detect,
      OF crop none] crop
  show ?thesis by blast
qed

end
